theory Spec2Isabelle
  imports Complex_Main
begin

section \<open>Data model\<close>

text \<open>
  The \<^verbatim>\<open>Order\<close> interface of \<^verbatim>\<open>src/types/order.ts\<close>. Optional fields
  (\<^verbatim>\<open>driverId?\<close>, \<^verbatim>\<open>employeeId?\<close>, \<^verbatim>\<open>status?\<close>) are options, \<open>None\<close> standing
  for \<^verbatim>\<open>undefined\<close>. The field \<^verbatim>\<open>id\<close> is called \<open>ident\<close>, since \<open>id\<close> is the
  identity function of HOL. A \<^verbatim>\<open>number\<close> is a real: the finite values.
\<close>

datatype OrderStatus = active | finished

record Order =
  ident :: string
  customer :: string
  cargoDescription :: string
  price :: real
  pickupTime :: string
  pickupAddress :: string
  deliverBeforeTime :: string
  deliverBeforeAddress :: string
  equipmentType :: string
  driverId :: "string option"
  employeeId :: "string option"
  status :: "OrderStatus option"

text \<open>The \<^verbatim>\<open>ScheduledOrder\<close> interface of the calendar component.\<close>

record ScheduledOrder =
  orderId :: string
  date :: string
  timeSlot :: string

section \<open>The scheduling engine: the \<^verbatim>\<open>ScheduleCalendar\<close> component\<close>

text \<open>
  The component's state, with the \<^verbatim>\<open>orders\<close> prop it reads. \<^verbatim>\<open>viewMode\<close> and
  \<^verbatim>\<open>currentDate\<close> decide only which cells are drawn and are left out; a cell is
  addressed by the string \<^verbatim>\<open>date.toISOString().split('T')[0]\<close> and its slot label.
\<close>

record ScheduleCalendar =
  orders :: "Order list"
  scheduledOrders :: "ScheduledOrder list"
  draggedOrder :: "Order option"
  draggedScheduledOrder :: "ScheduledOrder option"
  isDragOverSidebar :: bool
  dragOverTimeSlot :: "string option"

definition initial :: "Order list \<Rightarrow> ScheduleCalendar" where
  "initial os = \<lparr>orders = os, scheduledOrders = [], draggedOrder = None,
     draggedScheduledOrder = None, isDragOverSidebar = False, dragOverTimeSlot = None\<rparr>"

definition atSlot :: "string \<Rightarrow> string \<Rightarrow> ScheduledOrder \<Rightarrow> bool" where
  "atSlot dateStr slot s \<longleftrightarrow> date s = dateStr \<and> timeSlot s = slot"

definition getScheduledOrder :: "ScheduleCalendar \<Rightarrow> string \<Rightarrow> string \<Rightarrow> Order option" where
  "getScheduledOrder st dateStr slot =
     (case find (atSlot dateStr slot) (scheduledOrders st) of
        Some scheduled \<Rightarrow> find (\<lambda>ord. ident ord = orderId scheduled) (orders st)
      | None \<Rightarrow> None)"

definition unscheduledOrders :: "ScheduleCalendar \<Rightarrow> Order list" where
  "unscheduledOrders st =
     filter (\<lambda>order. \<not> list_ex (\<lambda>s. orderId s = ident order) (scheduledOrders st)) (orders st)"

definition handleDragStart :: "ScheduleCalendar \<Rightarrow> Order \<Rightarrow> ScheduleCalendar" where
  "handleDragStart st order = st\<lparr>draggedOrder := Some order, draggedScheduledOrder := None\<rparr>"

definition handleScheduledOrderDragStart ::
  "ScheduleCalendar \<Rightarrow> ScheduledOrder \<Rightarrow> Order \<Rightarrow> ScheduleCalendar" where
  "handleScheduledOrderDragStart st scheduledOrder order =
     st\<lparr>draggedScheduledOrder := Some scheduledOrder, draggedOrder := Some order\<rparr>"

definition handleDragOver :: "ScheduleCalendar \<Rightarrow> string \<Rightarrow> string \<Rightarrow> ScheduleCalendar" where
  "handleDragOver st dateStr slot = st\<lparr>dragOverTimeSlot := Some (dateStr @ ''-'' @ slot)\<rparr>"

text \<open>
  \<^verbatim>\<open>isDraggingSameOrder\<close> of a cell, which is also the test of the early return of
  \<^verbatim>\<open>handleDrop\<close>: the entry being dragged sits in this very cell.
\<close>

definition isDraggingSameOrder :: "ScheduleCalendar \<Rightarrow> string \<Rightarrow> string \<Rightarrow> bool" where
  "isDraggingSameOrder st dateStr slot =
     (case draggedScheduledOrder st of
        None \<Rightarrow> False
      | Some ds \<Rightarrow> date ds = dateStr \<and> timeSlot ds = slot)"

text \<open>
  \<^verbatim>\<open>handleDrop\<close> returns the new state and the arguments of the call of the optional
  \<^verbatim>\<open>onOrderScheduled\<close> callback, if it makes one.
\<close>

definition handleDrop ::
  "ScheduleCalendar \<Rightarrow> string \<Rightarrow> string \<Rightarrow> ScheduleCalendar \<times> (string \<times> string \<times> string) option" where
  "handleDrop st dateStr slot =
     (case draggedOrder st of
        None \<Rightarrow> (st, None)
      | Some dragged \<Rightarrow>
          let updated = filter (\<lambda>s. orderId s \<noteq> ident dragged) (scheduledOrders st) in
          if isDraggingSameOrder st dateStr slot
          then (st\<lparr>draggedOrder := None, draggedScheduledOrder := None,
                    dragOverTimeSlot := None\<rparr>, None)
          else (st\<lparr>scheduledOrders :=
                      updated @ [\<lparr>orderId = ident dragged, date = dateStr, timeSlot = slot\<rparr>],
                    draggedOrder := None, draggedScheduledOrder := None,
                    dragOverTimeSlot := None\<rparr>,
                Some (ident dragged, dateStr, slot)))"

definition handleSidebarDrop :: "ScheduleCalendar \<Rightarrow> ScheduleCalendar" where
  "handleSidebarDrop st =
     (case draggedOrder st of
        None \<Rightarrow> st
      | Some dragged \<Rightarrow>
          (case draggedScheduledOrder st of
             None \<Rightarrow> st
           | Some _ \<Rightarrow>
               st\<lparr>scheduledOrders :=
                     filter (\<lambda>s. orderId s \<noteq> ident dragged) (scheduledOrders st),
                   draggedOrder := None, draggedScheduledOrder := None,
                   isDragOverSidebar := False\<rparr>))"

definition handleSidebarDragOver :: "ScheduleCalendar \<Rightarrow> ScheduleCalendar" where
  "handleSidebarDragOver st =
     (if draggedScheduledOrder st \<noteq> None then st\<lparr>isDragOverSidebar := True\<rparr> else st)"

definition handleSidebarDragLeave :: "ScheduleCalendar \<Rightarrow> ScheduleCalendar" where
  "handleSidebarDragLeave st = st\<lparr>isDragOverSidebar := False\<rparr>"

subsection \<open>The handlers of one calendar cell and of one sidebar item\<close>

definition hasOrder :: "ScheduleCalendar \<Rightarrow> string \<Rightarrow> string \<Rightarrow> bool" where
  "hasOrder st dateStr slot \<longleftrightarrow> getScheduledOrder st dateStr slot \<noteq> None"

text \<open>The test that guards \<^verbatim>\<open>onDragOver\<close> and \<^verbatim>\<open>onDrop\<close> of a cell.\<close>

definition dropAllowed :: "ScheduleCalendar \<Rightarrow> string \<Rightarrow> string \<Rightarrow> bool" where
  "dropAllowed st dateStr slot \<longleftrightarrow> \<not> hasOrder st dateStr slot \<or> isDraggingSameOrder st dateStr slot"

definition cellDragOver :: "ScheduleCalendar \<Rightarrow> string \<Rightarrow> string \<Rightarrow> ScheduleCalendar" where
  "cellDragOver st dateStr slot =
     (if dropAllowed st dateStr slot then handleDragOver st dateStr slot else st)"

definition cellDrop ::
  "ScheduleCalendar \<Rightarrow> string \<Rightarrow> string \<Rightarrow> ScheduleCalendar \<times> (string \<times> string \<times> string) option" where
  "cellDrop st dateStr slot =
     (if dropAllowed st dateStr slot then handleDrop st dateStr slot else (st, None))"

text \<open>
  The draggable block of a cell exists only when the cell shows an order; its
  \<^verbatim>\<open>onDragStart\<close> looks the entry of the cell up again.
\<close>

definition cellDragStart :: "ScheduleCalendar \<Rightarrow> string \<Rightarrow> string \<Rightarrow> ScheduleCalendar" where
  "cellDragStart st dateStr slot =
     (case getScheduledOrder st dateStr slot of
        None \<Rightarrow> st
      | Some scheduledOrder \<Rightarrow>
          (case find (atSlot dateStr slot) (scheduledOrders st) of
             Some scheduled \<Rightarrow> handleScheduledOrderDragStart st scheduled scheduledOrder
           | None \<Rightarrow> st))"

definition cellDragEnd :: "ScheduleCalendar \<Rightarrow> ScheduleCalendar" where
  "cellDragEnd st = st\<lparr>draggedOrder := None, draggedScheduledOrder := None\<rparr>"

text \<open>A sidebar item exists for each unscheduled order.\<close>

definition sidebarDragStart :: "ScheduleCalendar \<Rightarrow> Order \<Rightarrow> ScheduleCalendar" where
  "sidebarDragStart st order =
     (if order \<in> set (unscheduledOrders st) then handleDragStart st order else st)"

subsection \<open>Events\<close>

text \<open>
  The user's gestures on the calendar, and \<open>OrdersChanged\<close>: the parent passes a new
  \<^verbatim>\<open>orders\<close> prop (an order was created, edited, deleted, or a file imported).
\<close>

datatype event =
    SidebarDragStart Order
  | CellDragStart string string
  | CellDragOver string string
  | CellDrop string string
  | CellDragEnd
  | SidebarDragOver
  | SidebarDragLeave
  | SidebarDrop
  | OrdersChanged "Order list"

fun step :: "ScheduleCalendar \<Rightarrow> event \<Rightarrow> ScheduleCalendar" where
  "step st (SidebarDragStart order) = sidebarDragStart st order"
| "step st (CellDragStart d t) = cellDragStart st d t"
| "step st (CellDragOver d t) = cellDragOver st d t"
| "step st (CellDrop d t) = fst (cellDrop st d t)"
| "step st CellDragEnd = cellDragEnd st"
| "step st SidebarDragOver = handleSidebarDragOver st"
| "step st SidebarDragLeave = handleSidebarDragLeave st"
| "step st SidebarDrop = handleSidebarDrop st"
| "step st (OrdersChanged os) = st\<lparr>orders := os\<rparr>"

definition run :: "ScheduleCalendar \<Rightarrow> event list \<Rightarrow> ScheduleCalendar" where
  "run st evs = foldl step st evs"

subsection \<open>Properties of the set of entries\<close>

definition slotUnique :: "ScheduledOrder list \<Rightarrow> bool" where
  "slotUnique xs \<longleftrightarrow> distinct (map (\<lambda>s. (date s, timeSlot s)) xs)"

definition orderUnique :: "ScheduledOrder list \<Rightarrow> bool" where
  "orderUnique xs \<longleftrightarrow> distinct (map orderId xs)"

definition knownId :: "Order list \<Rightarrow> string \<Rightarrow> bool" where
  "knownId os i \<longleftrightarrow> list_ex (\<lambda>ord. ident ord = i) os"

text \<open>Every entry, and the order being dragged, is an order of the collection.\<close>

definition refsOk :: "ScheduleCalendar \<Rightarrow> bool" where
  "refsOk st \<longleftrightarrow>
     list_all (\<lambda>s. knownId (orders st) (orderId s)) (scheduledOrders st)
     \<and> (case draggedOrder st of
          None \<Rightarrow> True
        | Some dragged \<Rightarrow> knownId (orders st) (ident dragged))"

text \<open>
  The drag state as \<^verbatim>\<open>handleScheduledOrderDragStart\<close> sets it: the entry being dragged
  is the one its cell shows, and the order being dragged is the order of that entry.
\<close>

definition dragConsistent :: "ScheduleCalendar \<Rightarrow> bool" where
  "dragConsistent st =
     (case draggedScheduledOrder st of
        None \<Rightarrow> True
      | Some ds \<Rightarrow>
          (case draggedOrder st of
             None \<Rightarrow> False
           | Some dragged \<Rightarrow> ident dragged = orderId ds)
          \<and> find (atSlot (date ds) (timeSlot ds)) (scheduledOrders st) = Some ds)"

text \<open>
  A run in which every change of the order collection keeps the orders that are
  referenced at that moment: those that have an entry and the one being dragged. Any
  other order may be removed, added or edited.
\<close>

fun keepsReferenced :: "ScheduleCalendar \<Rightarrow> event \<Rightarrow> bool" where
  "keepsReferenced st (OrdersChanged os) =
     (list_all (\<lambda>s. knownId os (orderId s)) (scheduledOrders st)
      \<and> (case draggedOrder st of
           None \<Rightarrow> True
         | Some dragged \<Rightarrow> knownId os (ident dragged)))"
| "keepsReferenced st _ = True"

fun referencedOrdersStay :: "ScheduleCalendar \<Rightarrow> event list \<Rightarrow> bool" where
  "referencedOrdersStay st [] = True"
| "referencedOrdersStay st (e # es) =
     (keepsReferenced st e \<and> referencedOrdersStay (step st e) es)"

section \<open>The order table: the \<^verbatim>\<open>OrderManagement\<close> component\<close>

text \<open>
  Modelled from the spec: the \<^verbatim>\<open>Employee\<close> interface, whose file
  \<^verbatim>\<open>src/types/employee.ts\<close> is not among the sources:
  \<^verbatim>\<open>{id, name, email?, phone?, role?, createdAt}\<close>. Its \<^verbatim>\<open>id\<close> is \<open>employeeIdent\<close>.
\<close>

record Employee =
  employeeIdent :: string
  name :: string
  email :: "string option"
  phone :: "string option"
  role :: "string option"
  createdAt :: string

datatype Tab = TabAll | TabUnassigned | TabAssigned | TabFinished

datatype SortDirection = Asc | Desc

datatype DateRangeType = Pickup | Delivery

text \<open>The part of the component's state that the table view is derived from.\<close>

record ViewState =
  activeTab :: Tab
  selectedDriver :: "string option"
  searchQuery :: string
  sortField :: "string option"
  sortDirection :: SortDirection
  dateRangeStart :: string
  dateRangeEnd :: string
  dateRangeType :: DateRangeType

text \<open>
  What the component takes from the JavaScript runtime, as parameters:
  \<^verbatim>\<open>String.prototype.toLowerCase\<close>; \<^verbatim>\<open>new Date(s).getTime()\<close>, \<open>None\<close> for the
  \<^verbatim>\<open>NaN\<close> of an invalid date; the same after \<^verbatim>\<open>setHours(23, 59, 59, 999)\<close>; and
  \<^verbatim>\<open>parseFloat\<close>, \<open>None\<close> for \<^verbatim>\<open>NaN\<close>.
\<close>

record Runtime =
  toLowerCase :: "string \<Rightarrow> string"
  getTime :: "string \<Rightarrow> int option"
  endOfDay :: "string \<Rightarrow> int option"
  parseFloat :: "string \<Rightarrow> real option"

text \<open>
  JavaScript's truth value of a \<^verbatim>\<open>string | undefined | null\<close>: \<^verbatim>\<open>undefined\<close>,
  \<^verbatim>\<open>null\<close> and the empty string are falsy.
\<close>

definition truthy :: "string option \<Rightarrow> bool" where
  "truthy v = (case v of None \<Rightarrow> False | Some s \<Rightarrow> s \<noteq> [])"

text \<open>\<^verbatim>\<open>s.includes(q)\<close>: \<open>q\<close> occurs in \<open>s\<close> as a block.\<close>

fun includesStr :: "string \<Rightarrow> string \<Rightarrow> bool" where
  "includesStr [] q = (q = [])"
| "includesStr (c # cs) q = (take (length q) (c # cs) = q \<or> includesStr cs q)"

text \<open>\<^verbatim>\<open>a < b\<close> on strings: lexicographic on the code units.\<close>

fun strLess :: "string \<Rightarrow> string \<Rightarrow> bool" where
  "strLess [] [] = False"
| "strLess [] (y # ys) = True"
| "strLess (x # xs) [] = False"
| "strLess (x # xs) (y # ys) = ((of_char x :: nat) < of_char y \<or> (x = y \<and> strLess xs ys))"

text \<open>\<^verbatim>\<open>a < b\<close> on the numbers of two dates: false when either is \<^verbatim>\<open>NaN\<close>.\<close>

definition timeLess :: "int option \<Rightarrow> int option \<Rightarrow> bool" where
  "timeLess a b = (case a of None \<Rightarrow> False | Some x \<Rightarrow> (case b of None \<Rightarrow> False | Some y \<Rightarrow> x < y))"

definition drivers :: "Employee list \<Rightarrow> Employee list" where
  "drivers employees = filter (\<lambda>employee. role employee = Some ''Driver'') employees"

subsection \<open>The filter of \<^verbatim>\<open>filteredOrders\<close>\<close>

definition matchesTab :: "Tab \<Rightarrow> Order \<Rightarrow> bool" where
  "matchesTab tab order =
     (case tab of
        TabAll \<Rightarrow> True
      | TabUnassigned \<Rightarrow> \<not> truthy (driverId order)
      | TabAssigned \<Rightarrow> truthy (driverId order) \<and> status order \<noteq> Some finished
      | TabFinished \<Rightarrow> status order = Some finished)"

definition matchesSearch :: "Runtime \<Rightarrow> string \<Rightarrow> Employee list \<Rightarrow> Order \<Rightarrow> bool" where
  "matchesSearch rt q ds order =
     (let query = toLowerCase rt q;
          assignedDriver = find (\<lambda>d. Some (employeeIdent d) = driverId order) ds
      in includesStr (toLowerCase rt (ident order)) query
         \<or> includesStr (toLowerCase rt (customer order)) query
         \<or> includesStr (toLowerCase rt (pickupAddress order)) query
         \<or> includesStr (toLowerCase rt (deliverBeforeAddress order)) query
         \<or> (case assignedDriver of
               None \<Rightarrow> False
             | Some d \<Rightarrow> includesStr (toLowerCase rt (name d)) query))"

definition inDateRange :: "Runtime \<Rightarrow> ViewState \<Rightarrow> Order \<Rightarrow> bool" where
  "inDateRange rt v order =
     (let dateField = (if dateRangeType v = Pickup then pickupTime order
                       else deliverBeforeTime order);
          orderDate = getTime rt dateField
      in if dateRangeStart v \<noteq> [] \<and> timeLess orderDate (getTime rt (dateRangeStart v))
         then False
         else if dateRangeEnd v \<noteq> [] \<and> timeLess (endOfDay rt (dateRangeEnd v)) orderDate
         then False
         else True)"

text \<open>The callback of \<^verbatim>\<open>orders.filter\<close>, with its early returns in their order.\<close>

definition passesFilter :: "Runtime \<Rightarrow> ViewState \<Rightarrow> Employee list \<Rightarrow> Order \<Rightarrow> bool" where
  "passesFilter rt v ds order =
     (if \<not> matchesTab (activeTab v) order then False
      else if truthy (selectedDriver v) \<and> driverId order \<noteq> selectedDriver v then False
      else if searchQuery v \<noteq> [] \<and> \<not> matchesSearch rt (searchQuery v) ds order then False
      else if (dateRangeStart v \<noteq> [] \<or> dateRangeEnd v \<noteq> []) \<and> \<not> inDateRange rt v order
      then False
      else True)"

subsection \<open>The sort of \<^verbatim>\<open>filteredOrders\<close>\<close>

definition statusText :: "Order \<Rightarrow> string" where
  "statusText order =
     (case status order of None \<Rightarrow> ''active'' | Some active \<Rightarrow> ''active''
      | Some finished \<Rightarrow> ''finished'')"

text \<open>The last three lines of the comparator: \<open>lt\<close> is \<^verbatim>\<open>aValue < bValue\<close>, \<open>gt\<close> is
  \<^verbatim>\<open>aValue > bValue\<close>.\<close>

definition ordered :: "SortDirection \<Rightarrow> bool \<Rightarrow> bool \<Rightarrow> int" where
  "ordered dir lt gt =
     (if lt then (if dir = Asc then - 1 else 1)
      else if gt then (if dir = Asc then 1 else - 1)
      else 0)"

definition compareOrders ::
  "Runtime \<Rightarrow> string option \<Rightarrow> SortDirection \<Rightarrow> Order \<Rightarrow> Order \<Rightarrow> int" where
  "compareOrders rt field dir a b =
     (if \<not> truthy field then 0
      else if field = Some ''customer'' then
        ordered dir (strLess (toLowerCase rt (customer a)) (toLowerCase rt (customer b)))
          (strLess (toLowerCase rt (customer b)) (toLowerCase rt (customer a)))
      else if field = Some ''price'' then ordered dir (price a < price b) (price b < price a)
      else if field = Some ''pickupTime'' then
        ordered dir (timeLess (getTime rt (pickupTime a)) (getTime rt (pickupTime b)))
          (timeLess (getTime rt (pickupTime b)) (getTime rt (pickupTime a)))
      else if field = Some ''deliverBeforeTime'' then
        ordered dir
          (timeLess (getTime rt (deliverBeforeTime a)) (getTime rt (deliverBeforeTime b)))
          (timeLess (getTime rt (deliverBeforeTime b)) (getTime rt (deliverBeforeTime a)))
      else if field = Some ''status'' then
        ordered dir (strLess (statusText a) (statusText b)) (strLess (statusText b) (statusText a))
      else 0)"

text \<open>
  \<^verbatim>\<open>Array.prototype.sort\<close> with a comparator. ECMAScript requires the sort to be
  stable: elements that the comparator calls equal keep their order, so that a
  consistent comparator leaves one possible result, which a stable insertion sort
  computes. With an inconsistent comparator (a \<^verbatim>\<open>NaN\<close> sort key compares equal to every
  key) the result depends on the algorithm of the engine and can differ from the one
  computed here; the comparator of the statements below is the constant 0.
\<close>

fun insertBy :: "('a \<Rightarrow> 'a \<Rightarrow> int) \<Rightarrow> 'a \<Rightarrow> 'a list \<Rightarrow> 'a list" where
  "insertBy cmp x [] = [x]"
| "insertBy cmp x (y # ys) = (if cmp x y \<le> 0 then x # y # ys else y # insertBy cmp x ys)"

definition arraySort :: "('a \<Rightarrow> 'a \<Rightarrow> int) \<Rightarrow> 'a list \<Rightarrow> 'a list" where
  "arraySort cmp xs = foldr (insertBy cmp) xs []"

definition filteredOrders ::
  "Runtime \<Rightarrow> ViewState \<Rightarrow> Employee list \<Rightarrow> Order list \<Rightarrow> Order list" where
  "filteredOrders rt v employees os =
     arraySort (compareOrders rt (sortField v) (sortDirection v))
       (filter (passesFilter rt v (drivers employees)) os)"

subsection \<open>The order form\<close>

text \<open>
  \<^verbatim>\<open>formData\<close>: every field is the text of an input. The fields carry the prefix
  \<open>form\<close>, since the names without it are the fields of \<open>Order\<close>.
\<close>

record FormData =
  formCustomer :: string
  formCargoDescription :: string
  formPrice :: string
  formPickupTime :: string
  formPickupAddress :: string
  formDeliverBeforeTime :: string
  formDeliverBeforeAddress :: string
  formEquipmentType :: string
  formEmployeeId :: string

record OrderForm =
  isFormOpen :: bool
  editingOrderId :: "string option"
  formData :: FormData

definition emptyFormData :: FormData where
  "emptyFormData = \<lparr>formCustomer = [], formCargoDescription = [], formPrice = [],
     formPickupTime = [], formPickupAddress = [], formDeliverBeforeTime = [],
     formDeliverBeforeAddress = [], formEquipmentType = [], formEmployeeId = []\<rparr>"

definition handleCloseForm :: "OrderForm \<Rightarrow> OrderForm" where
  "handleCloseForm form = \<lparr>isFormOpen = False, editingOrderId = None, formData = emptyFormData\<rparr>"

text \<open>\<^verbatim>\<open>parseFloat(formData.price) || 0\<close> and \<^verbatim>\<open>formData.employeeId || undefined\<close>.\<close>

definition priceOf :: "Runtime \<Rightarrow> string \<Rightarrow> real" where
  "priceOf rt s = (case parseFloat rt s of None \<Rightarrow> 0 | Some x \<Rightarrow> x)"

definition orUndefined :: "string \<Rightarrow> string option" where
  "orUndefined s = (if s = [] then None else Some s)"

definition applyForm :: "Runtime \<Rightarrow> FormData \<Rightarrow> Order \<Rightarrow> Order" where
  "applyForm rt fd order =
     order\<lparr>customer := formCustomer fd,
           cargoDescription := formCargoDescription fd,
           price := priceOf rt (formPrice fd),
           pickupTime := formPickupTime fd,
           pickupAddress := formPickupAddress fd,
           deliverBeforeTime := formDeliverBeforeTime fd,
           deliverBeforeAddress := formDeliverBeforeAddress fd,
           equipmentType := formEquipmentType fd,
           employeeId := orUndefined (formEmployeeId fd)\<rparr>"

text \<open>
  \<^verbatim>\<open>handleSubmit\<close>. \<open>now\<close> is the decimal text of \<^verbatim>\<open>Date.now()\<close>, which the id of a
  new order is made of. The result is the new order collection and the form state
  that \<^verbatim>\<open>handleCloseForm\<close> leaves.
\<close>

definition handleSubmit ::
  "Runtime \<Rightarrow> string \<Rightarrow> OrderForm \<Rightarrow> Order list \<Rightarrow> Order list \<times> OrderForm" where
  "handleSubmit rt now form os =
     (if truthy (editingOrderId form)
      then (map (\<lambda>order. if Some (ident order) = editingOrderId form
                         then applyForm rt (formData form) order else order) os,
            handleCloseForm form)
      else (os @ [\<lparr>ident = ''ORD-'' @ now,
                   customer = formCustomer (formData form),
                   cargoDescription = formCargoDescription (formData form),
                   price = priceOf rt (formPrice (formData form)),
                   pickupTime = formPickupTime (formData form),
                   pickupAddress = formPickupAddress (formData form),
                   deliverBeforeTime = formDeliverBeforeTime (formData form),
                   deliverBeforeAddress = formDeliverBeforeAddress (formData form),
                   equipmentType = formEquipmentType (formData form),
                   driverId = None,
                   employeeId = orUndefined (formEmployeeId (formData form)),
                   status = Some active\<rparr>],
            handleCloseForm form))"

section \<open>Export and import: \<^verbatim>\<open>src/utils/storage.ts\<close>\<close>

text \<open>
  \<^verbatim>\<open>exportAsJSON\<close> and \<^verbatim>\<open>importFromJSON\<close> take and give any value. These are the values
  of JavaScript that a collection of records is made of. A Number is finite (a real; 0
  and -0 are not told apart), \<^verbatim>\<open>NaN\<close> or an infinity. The properties of an object are
  listed in the order in which the object enumerates them.
\<close>

datatype Number = Finite real | NaN | PosInfinity | NegInfinity

datatype JSValue =
    JUndefined
  | JNull
  | JBoolean bool
  | JNumber Number
  | JString string
  | JArray "JSValue list"
  | JObject "(string \<times> JSValue) list"

text \<open>
  The document that a JSON text spells. \<^verbatim>\<open>JSON.stringify\<close> and \<^verbatim>\<open>JSON.parse\<close> belong to
  the runtime and are modelled from ECMAScript (\<^verbatim>\<open>SerializeJSONProperty\<close>,
  \<^verbatim>\<open>SerializeJSONObject\<close>, \<^verbatim>\<open>SerializeJSONArray\<close>; \<^verbatim>\<open>JSON.parse\<close>), through the document
  and not through the characters: two texts that spell one document (other white
  space, which is all that the indentation 2 of \<^verbatim>\<open>exportAsJSON\<close> adds, other escapes,
  another spelling of a number) are one text here. A number literal is given by its
  Number value: a finite one, or none when the literal is beyond the range of Number
  (\<^verbatim>\<open>1e400\<close>, \<^verbatim>\<open>-1e400\<close>), which \<^verbatim>\<open>JSON.parse\<close> reads as an infinity. A text is the text of
  a document, or some other text.
\<close>

datatype Json =
    JsonNull
  | JsonBoolean bool
  | JsonNumber real
  | JsonHugeNumber
  | JsonHugeNegativeNumber
  | JsonString string
  | JsonArray "Json list"
  | JsonObject "(string \<times> Json) list"

datatype Text = Spells Json | NotJSON string

text \<open>
  \<^verbatim>\<open>SerializeJSONProperty\<close>: \<^verbatim>\<open>undefined\<close> has no text; a Number that is not finite is
  written \<^verbatim>\<open>null\<close>; an element of an array that has no text is written \<^verbatim>\<open>null\<close>; a
  property of an object whose value has no text is left out.
\<close>

fun serialize :: "JSValue \<Rightarrow> Json option" where
  "serialize JUndefined = None"
| "serialize JNull = Some JsonNull"
| "serialize (JBoolean b) = Some (JsonBoolean b)"
| "serialize (JNumber n) = Some (case n of Finite x \<Rightarrow> JsonNumber x | _ \<Rightarrow> JsonNull)"
| "serialize (JString s) = Some (JsonString s)"
| "serialize (JArray vs) =
     Some (JsonArray (map (\<lambda>v. case serialize v of None \<Rightarrow> JsonNull | Some j \<Rightarrow> j) vs))"
| "serialize (JObject ps) =
     Some (JsonObject
       (concat (map (\<lambda>(k, v). case serialize v of None \<Rightarrow> [] | Some j \<Rightarrow> [(k, j)]) ps)))"

text \<open>\<^verbatim>\<open>JSON.stringify(value, null, 2)\<close>: a text, or \<^verbatim>\<open>undefined\<close>.\<close>

definition stringify :: "JSValue \<Rightarrow> Text option" where
  "stringify v = map_option Spells (serialize v)"

text \<open>
  \<^verbatim>\<open>JSON.parse\<close> builds an object by defining its properties in the order of the text: a
  key that comes again keeps its place and takes the later value.
\<close>

fun defineProperty :: "string \<Rightarrow> 'v \<Rightarrow> (string \<times> 'v) list \<Rightarrow> (string \<times> 'v) list" where
  "defineProperty k v [] = [(k, v)]"
| "defineProperty k v ((k', v') # ps) =
     (if k' = k then (k, v) # ps else (k', v') # defineProperty k v ps)"

definition defineAll :: "(string \<times> 'v) list \<Rightarrow> (string \<times> 'v) list" where
  "defineAll ms = foldl (\<lambda>ps (k, v). defineProperty k v ps) [] ms"

fun reify :: "Json \<Rightarrow> JSValue" where
  "reify JsonNull = JNull"
| "reify (JsonBoolean b) = JBoolean b"
| "reify (JsonNumber x) = JNumber (Finite x)"
| "reify JsonHugeNumber = JNumber PosInfinity"
| "reify JsonHugeNegativeNumber = JNumber NegInfinity"
| "reify (JsonString s) = JString s"
| "reify (JsonArray js) = JArray (map reify js)"
| "reify (JsonObject ms) = JObject (defineAll (map (\<lambda>(k, j). (k, reify j)) ms))"

datatype SyntaxError = SyntaxError

definition parse :: "Text \<Rightarrow> SyntaxError + JSValue" where
  "parse t = (case t of Spells doc \<Rightarrow> Inr (reify doc) | NotJSON _ \<Rightarrow> Inl SyntaxError)"

text \<open>A file: its name and its text, \<open>None\<close> when the file cannot be read.\<close>

record File =
  fileName :: string
  fileText :: "Text option"

text \<open>
  \<^verbatim>\<open>exportAsJSON\<close> makes a \<^verbatim>\<open>Blob\<close> of the text and has the browser download it under
  the file name: the result is the downloaded file. A \<^verbatim>\<open>Blob\<close> made of \<^verbatim>\<open>undefined\<close>
  holds the text \<^verbatim>\<open>undefined\<close>.
\<close>

definition exportAsJSON :: "JSValue \<Rightarrow> string \<Rightarrow> File" where
  "exportAsJSON data filename =
     (let jsonStr = stringify data
      in \<lparr>fileName = filename,
          fileText = Some (case jsonStr of None \<Rightarrow> NotJSON ''undefined'' | Some t \<Rightarrow> t)\<rparr>)"

text \<open>
  \<^verbatim>\<open>importFromJSON\<close>: the promise resolves with the parsed value (\<open>Inr\<close>) or rejects with
  an error of the given message (\<open>Inl\<close>).
\<close>

definition importFromJSON :: "File \<Rightarrow> string + JSValue" where
  "importFromJSON file =
     (case fileText file of
        None \<Rightarrow> Inl ''Failed to read file''
      | Some t \<Rightarrow>
          (case parse t of
             Inl _ \<Rightarrow> Inl ''Invalid JSON file''
           | Inr data \<Rightarrow> Inr data))"

subsection \<open>Values and their texts\<close>

text \<open>Every object of JavaScript has each of its keys once.\<close>

fun distinctKeys :: "JSValue \<Rightarrow> bool" where
  "distinctKeys (JArray vs) = list_all distinctKeys vs"
| "distinctKeys (JObject ps) = (distinct (map fst ps) \<and> list_all (\<lambda>(k, v). distinctKeys v) ps)"
| "distinctKeys _ = True"

text \<open>
  A value whose every Number is finite and in which \<^verbatim>\<open>undefined\<close> stands nowhere but as
  the value of a property.
\<close>

fun representable :: "JSValue \<Rightarrow> bool" where
  "representable JUndefined = False"
| "representable (JNumber n) = (case n of Finite x \<Rightarrow> True | _ \<Rightarrow> False)"
| "representable (JArray vs) = list_all representable vs"
| "representable (JObject ps) = list_all (\<lambda>(k, v). v = JUndefined \<or> representable v) ps"
| "representable _ = True"

text \<open>A value whose every Number is finite and in which \<^verbatim>\<open>undefined\<close> stands nowhere.\<close>

fun jsonSafe :: "JSValue \<Rightarrow> bool" where
  "jsonSafe JUndefined = False"
| "jsonSafe (JNumber n) = (case n of Finite x \<Rightarrow> True | _ \<Rightarrow> False)"
| "jsonSafe (JArray vs) = list_all jsonSafe vs"
| "jsonSafe (JObject ps) = list_all (\<lambda>(k, v). jsonSafe v) ps"
| "jsonSafe _ = True"

text \<open>The value without the properties whose value is \<^verbatim>\<open>undefined\<close>.\<close>

fun omitUndefined :: "JSValue \<Rightarrow> JSValue" where
  "omitUndefined (JArray vs) = JArray (map omitUndefined vs)"
| "omitUndefined (JObject ps) =
     JObject (map (\<lambda>(k, v). (k, omitUndefined v)) (filter (\<lambda>(k, v). v \<noteq> JUndefined) ps))"
| "omitUndefined v = v"

text \<open>\<^verbatim>\<open>object[key]\<close>: the value of the property, \<^verbatim>\<open>undefined\<close> when there is none.\<close>

fun readProperty :: "JSValue \<Rightarrow> string \<Rightarrow> JSValue" where
  "readProperty (JObject ps) k = (case map_of ps k of None \<Rightarrow> JUndefined | Some v \<Rightarrow> v)"
| "readProperty _ k = JUndefined"

text \<open>
  The object of an \<open>Order\<close>, as the object literal of \<^verbatim>\<open>handleSubmit\<close> builds it: every
  key of the interface in its order, an optional field that the record does not have
  with the value \<^verbatim>\<open>undefined\<close>.
\<close>

definition optional :: "('a \<Rightarrow> JSValue) \<Rightarrow> 'a option \<Rightarrow> JSValue" where
  "optional f x = (case x of None \<Rightarrow> JUndefined | Some y \<Rightarrow> f y)"

definition statusString :: "OrderStatus \<Rightarrow> JSValue" where
  "statusString s = (case s of active \<Rightarrow> JString ''active'' | finished \<Rightarrow> JString ''finished'')"

definition orderObject :: "Order \<Rightarrow> JSValue" where
  "orderObject order = JObject
     [(''id'', JString (ident order)),
      (''customer'', JString (customer order)),
      (''cargoDescription'', JString (cargoDescription order)),
      (''price'', JNumber (Finite (price order))),
      (''pickupTime'', JString (pickupTime order)),
      (''pickupAddress'', JString (pickupAddress order)),
      (''deliverBeforeTime'', JString (deliverBeforeTime order)),
      (''deliverBeforeAddress'', JString (deliverBeforeAddress order)),
      (''equipmentType'', JString (equipmentType order)),
      (''driverId'', optional JString (driverId order)),
      (''employeeId'', optional JString (employeeId order)),
      (''status'', optional statusString (status order))]"

section \<open>Example data\<close>

text \<open>The two orders of the spec's scenarios.\<close>

definition ORD_1 :: Order where
  "ORD_1 = \<lparr>ident = ''ORD-1'', customer = ''Acme Corporation'',
     cargoDescription = ''Office supplies'', price = 1500,
     pickupTime = ''2024-06-03T09:00'', pickupAddress = ''123 Main Street, Oslo, Norway'',
     deliverBeforeTime = ''2024-06-03T13:00'',
     deliverBeforeAddress = ''200 Transport Avenue, Bergen, Norway'',
     equipmentType = ''Van - Small'', driverId = None, employeeId = None,
     status = Some active\<rparr>"

definition ORD_2 :: Order where
  "ORD_2 = \<lparr>ident = ''ORD-2'', customer = ''Nordic Transport AS'',
     cargoDescription = ''Machinery and equipment'', price = 42000,
     pickupTime = ''2024-06-04T07:30'', pickupAddress = ''555 Port Avenue, Kristiansand, Norway'',
     deliverBeforeTime = ''2024-06-04T12:30'',
     deliverBeforeAddress = ''400 Cargo Road, Stavanger, Norway'',
     equipmentType = ''Truck - 40ft'', driverId = Some ''EMP-1'', employeeId = None,
     status = Some finished\<rparr>"

text \<open>A runtime and an edit form for the examples.\<close>

definition exampleRuntime :: Runtime where
  "exampleRuntime = \<lparr>toLowerCase = (\<lambda>s. s), getTime = (\<lambda>s. None), endOfDay = (\<lambda>s. None),
     parseFloat = (\<lambda>s. if s = ''1800'' then Some 1800 else None)\<rparr>"

definition exampleForm :: OrderForm where
  "exampleForm = \<lparr>isFormOpen = True, editingOrderId = Some ''ORD-1'',
     formData = \<lparr>formCustomer = ''Acme Corporation'', formCargoDescription = ''Office supplies'',
       formPrice = ''1800'', formPickupTime = ''2024-06-03T10:00'',
       formPickupAddress = ''123 Main Street, Oslo, Norway'',
       formDeliverBeforeTime = ''2024-06-03T14:00'',
       formDeliverBeforeAddress = ''200 Transport Avenue, Bergen, Norway'',
       formEquipmentType = ''Truck - 20ft'', formEmployeeId = []\<rparr>\<rparr>"

text \<open>
  An order whose price is \<^verbatim>\<open>Infinity\<close>, and a file whose import gives it: its price is
  written \<^verbatim>\<open>1e400\<close>.
\<close>

definition infinitePriceOrder :: JSValue where
  "infinitePriceOrder = JObject
     [(''id'', JString ''ORD-3''),
      (''customer'', JString ''Global Logistics Inc''),
      (''cargoDescription'', JString ''Construction materials''),
      (''price'', JNumber PosInfinity),
      (''pickupTime'', JString ''2024-06-05T08:00''),
      (''pickupAddress'', JString ''789 Harbor Boulevard, Trondheim, Norway''),
      (''deliverBeforeTime'', JString ''2024-06-05T12:00''),
      (''deliverBeforeAddress'', JString ''100 Delivery Street, Oslo, Norway''),
      (''equipmentType'', JString ''Flatbed Truck''),
      (''status'', JString ''active'')]"

definition hugePriceFile :: File where
  "hugePriceFile = \<lparr>fileName = ''orders.json'',
     fileText = Some (Spells (JsonArray [JsonObject
       [(''id'', JsonString ''ORD-3''),
        (''customer'', JsonString ''Global Logistics Inc''),
        (''cargoDescription'', JsonString ''Construction materials''),
        (''price'', JsonHugeNumber),
        (''pickupTime'', JsonString ''2024-06-05T08:00''),
        (''pickupAddress'', JsonString ''789 Harbor Boulevard, Trondheim, Norway''),
        (''deliverBeforeTime'', JsonString ''2024-06-05T12:00''),
        (''deliverBeforeAddress'', JsonString ''100 Delivery Street, Oslo, Norway''),
        (''equipmentType'', JsonString ''Flatbed Truck''),
        (''status'', JsonString ''active'')]]))\<rparr>"

section \<open>Basic facts\<close>

lemmas handler_defs =
  sidebarDragStart_def handleDragStart_def unscheduledOrders_def cellDragStart_def
  handleScheduledOrderDragStart_def getScheduledOrder_def atSlot_def cellDragOver_def
  handleDragOver_def cellDrop_def dropAllowed_def hasOrder_def isDraggingSameOrder_def
  handleDrop_def cellDragEnd_def handleSidebarDragOver_def handleSidebarDragLeave_def
  handleSidebarDrop_def

lemmas example_defs = run_def initial_def handler_defs ORD_1_def ORD_2_def Let_def

lemma ident_ORD_1: "ident ORD_1 = ''ORD-1''"
  by (simp add: ORD_1_def)

lemma find_SomeD: "find P xs = Some x \<Longrightarrow> P x \<and> x \<in> set xs"
  by (induction xs) (auto split: if_splits)

lemma knownId_iff: "knownId os i \<longleftrightarrow> find (\<lambda>ord. ident ord = i) os \<noteq> None"
  by (auto simp: knownId_def list_ex_iff find_None_iff)

subsection \<open>What a drop on a cell does to the entries\<close>

lemma occupied_cell_keeps_entries:
  assumes "hasOrder st d t"
  shows "scheduledOrders (fst (cellDrop st d t)) = scheduledOrders st \<and> snd (cellDrop st d t) = None"
  using assms
  by (simp add: cellDrop_def dropAllowed_def handleDrop_def Let_def split: option.splits)

lemma same_cell_keeps_entries:
  assumes "isDraggingSameOrder st d t"
  shows "scheduledOrders (fst (cellDrop st d t)) = scheduledOrders st"
  using assms by (simp add: cellDrop_def handleDrop_def Let_def split: option.splits)

lemma nothing_dragged_keeps_entries:
  assumes "draggedOrder st = None"
  shows "scheduledOrders (fst (cellDrop st d t)) = scheduledOrders st"
  using assms by (simp add: cellDrop_def handleDrop_def)

subsection \<open>One entry for an order\<close>

lemma orderUnique_filter: "orderUnique xs \<Longrightarrow> orderUnique (filter P xs)"
  by (simp add: orderUnique_def distinct_map_filter)

lemma orderUnique_reschedule:
  "orderUnique xs \<Longrightarrow>
   orderUnique (filter (\<lambda>s. orderId s \<noteq> i) xs @ [\<lparr>orderId = i, date = d, timeSlot = t\<rparr>])"
  by (auto simp: orderUnique_def distinct_map_filter)

lemma orderUnique_step:
  "orderUnique (scheduledOrders st) \<Longrightarrow> orderUnique (scheduledOrders (step st e))"
  by (cases e)
    (auto simp: sidebarDragStart_def handleDragStart_def cellDragStart_def
      handleScheduledOrderDragStart_def cellDragOver_def handleDragOver_def cellDrop_def
      handleDrop_def Let_def cellDragEnd_def handleSidebarDragOver_def handleSidebarDragLeave_def
      handleSidebarDrop_def orderUnique_reschedule orderUnique_filter
      split: option.splits)

lemma orderUnique_run:
  "orderUnique (scheduledOrders st) \<Longrightarrow> orderUnique (scheduledOrders (run st evs))"
  unfolding run_def by (induction evs arbitrary: st) (simp_all add: orderUnique_step)

lemma orderUnique_same_order:
  assumes "orderUnique xs" "a \<in> set xs" "b \<in> set xs" "orderId a = orderId b"
  shows "a = b"
proof -
  from assms(1) have "inj_on orderId (set xs)"
    by (simp add: orderUnique_def distinct_map)
  then show ?thesis using assms(2-4) by (auto dest: inj_onD)
qed

subsection \<open>Entries that reference orders\<close>

lemma refsOk_cellDragStart: "refsOk st \<Longrightarrow> refsOk (cellDragStart st d t)"
  by (auto simp: refsOk_def cellDragStart_def getScheduledOrder_def
      handleScheduledOrderDragStart_def knownId_def list_ex_iff
      split: option.splits dest: find_SomeD)

lemma refsOk_sidebarDragStart: "refsOk st \<Longrightarrow> refsOk (sidebarDragStart st ord)"
  by (auto simp: refsOk_def sidebarDragStart_def handleDragStart_def unscheduledOrders_def
      knownId_def list_ex_iff)

lemma refsOk_cellDrop: "refsOk st \<Longrightarrow> refsOk (fst (cellDrop st d t))"
  by (auto simp: refsOk_def cellDrop_def handleDrop_def Let_def list_all_iff split: option.splits)

lemma refsOk_handleSidebarDrop: "refsOk st \<Longrightarrow> refsOk (handleSidebarDrop st)"
  by (auto simp: refsOk_def handleSidebarDrop_def list_all_iff split: option.splits)

lemma refsOk_ordersChanged:
  assumes "keepsReferenced st (OrdersChanged os)"
  shows "refsOk (st\<lparr>orders := os\<rparr>)"
  using assms by (simp add: refsOk_def split: option.splits)

lemma refsOk_step: "refsOk st \<Longrightarrow> keepsReferenced st e \<Longrightarrow> refsOk (step st e)"
proof (cases e)
  case (OrdersChanged os)
  assume "refsOk st" "keepsReferenced st e"
  then show ?thesis using OrdersChanged refsOk_ordersChanged [of st os] by simp
qed (auto simp: refsOk_cellDragStart refsOk_sidebarDragStart refsOk_cellDrop
      refsOk_handleSidebarDrop,
     auto simp: refsOk_def cellDragOver_def handleDragOver_def cellDragEnd_def
      handleSidebarDragOver_def handleSidebarDragLeave_def split: option.splits)


lemma refsOk_initial: "refsOk (initial os)"
  by (simp add: refsOk_def initial_def)

text \<open>While every entry references an order, a cell that shows no order holds no entry.\<close>

lemma free_cell_has_no_entry:
  assumes "refsOk st" "\<not> hasOrder st d t"
  shows "\<forall>s \<in> set (scheduledOrders st). \<not> atSlot d t s"
proof (cases "find (atSlot d t) (scheduledOrders st)")
  case None
  then show ?thesis by (simp add: find_None_iff)
next
  case (Some s)
  then have "s \<in> set (scheduledOrders st)" by (simp add: find_SomeD)
  with assms(1) have "knownId (orders st) (orderId s)" by (simp add: refsOk_def list_all_iff)
  with assms(2) Some show ?thesis by (simp add: hasOrder_def getScheduledOrder_def knownId_iff)
qed

lemma entry_makes_cell_occupied:
  assumes "refsOk st" "s \<in> set (scheduledOrders st)" "atSlot d t s"
  shows "hasOrder st d t"
  using assms free_cell_has_no_entry [of st d t] by blast

subsection \<open>The drag state\<close>

lemma dragConsistent_cellDragStart:
  assumes "dragConsistent st"
  shows "dragConsistent (cellDragStart st d t)"
proof (cases "find (atSlot d t) (scheduledOrders st)")
  case None
  then show ?thesis using assms by (simp add: cellDragStart_def getScheduledOrder_def)
next
  case (Some s)
  then have slot: "date s = d" "timeSlot s = t"
    using find_SomeD [of "atSlot d t" "scheduledOrders st" s] by (simp_all add: atSlot_def)
  show ?thesis
  proof (cases "find (\<lambda>ord. ident ord = orderId s) (orders st)")
    case None
    then show ?thesis using assms Some by (simp add: cellDragStart_def getScheduledOrder_def)
  next
    case found: (Some ord)
    then have "ident ord = orderId s"
      using find_SomeD [of "\<lambda>ord. ident ord = orderId s" "orders st" ord] by simp
    then show ?thesis
      using Some found slot
      by (simp add: cellDragStart_def getScheduledOrder_def handleScheduledOrderDragStart_def
          dragConsistent_def)
  qed
qed

lemma dragConsistent_cellDrop: "dragConsistent st \<Longrightarrow> dragConsistent (fst (cellDrop st d t))"
  by (auto simp: dragConsistent_def cellDrop_def handleDrop_def Let_def split: option.splits)

lemma dragConsistent_handleSidebarDrop:
  "dragConsistent st \<Longrightarrow> dragConsistent (handleSidebarDrop st)"
  by (auto simp: dragConsistent_def handleSidebarDrop_def split: option.splits)

lemma dragConsistent_step: "dragConsistent st \<Longrightarrow> dragConsistent (step st e)"
proof (cases e)
  case (CellDragStart d t)
  assume "dragConsistent st"
  then show ?thesis using CellDragStart by (simp add: dragConsistent_cellDragStart)
next
  case (CellDrop d t)
  assume "dragConsistent st"
  then show ?thesis using CellDrop by (simp add: dragConsistent_cellDrop)
next
  case SidebarDrop
  assume "dragConsistent st"
  then show ?thesis using SidebarDrop by (simp add: dragConsistent_handleSidebarDrop)
qed (auto simp: dragConsistent_def sidebarDragStart_def handleDragStart_def cellDragOver_def
      handleDragOver_def cellDragEnd_def handleSidebarDragOver_def handleSidebarDragLeave_def
      split: option.splits)

lemma dragConsistent_run: "dragConsistent st \<Longrightarrow> dragConsistent (run st evs)"
  unfolding run_def by (induction evs arbitrary: st) (simp_all add: dragConsistent_step)

lemma dragConsistent_initial: "dragConsistent (initial os)"
  by (simp add: dragConsistent_def initial_def)

text \<open>The entry being dragged is never the entry of another order's cell.\<close>

lemma not_dragging_occupant:
  assumes "dragConsistent st" "draggedOrder st = Some dragged"
    "getScheduledOrder st d t = Some occupant" "ident occupant \<noteq> ident dragged"
  shows "\<not> isDraggingSameOrder st d t"
proof
  assume same: "isDraggingSameOrder st d t"
  then obtain ds where ds: "draggedScheduledOrder st = Some ds" "date ds = d" "timeSlot ds = t"
    by (auto simp: isDraggingSameOrder_def split: option.splits)
  with assms(1,2) have "ident dragged = orderId ds"
    and "find (atSlot d t) (scheduledOrders st) = Some ds"
    by (auto simp: dragConsistent_def)
  with assms(3) have "find (\<lambda>ord. ident ord = orderId ds) (orders st) = Some occupant"
    by (simp add: getScheduledOrder_def)
  then have "ident occupant = orderId ds"
    using find_SomeD [of "\<lambda>ord. ident ord = orderId ds" "orders st" occupant] by simp
  with \<open>ident dragged = orderId ds\<close> assms(4) show False by simp
qed

text \<open>A drop on a cell without an entry goes through to \<^verbatim>\<open>handleDrop\<close>.\<close>

lemma free_cell_accepts_drop:
  assumes "draggedOrder st = Some dragged" "dragConsistent st"
    "\<forall>s \<in> set (scheduledOrders st). \<not> atSlot dB tB s"
  shows "cellDrop st dB tB =
    (st\<lparr>scheduledOrders := filter (\<lambda>s. orderId s \<noteq> ident dragged) (scheduledOrders st)
           @ [\<lparr>orderId = ident dragged, date = dB, timeSlot = tB\<rparr>],
        draggedOrder := None, draggedScheduledOrder := None, dragOverTimeSlot := None\<rparr>,
     Some (ident dragged, dB, tB))"
proof -
  from assms(3) have none: "find (atSlot dB tB) (scheduledOrders st) = None"
    by (simp add: find_None_iff)
  have "\<not> isDraggingSameOrder st dB tB"
  proof
    assume "isDraggingSameOrder st dB tB"
    then obtain ds where "draggedScheduledOrder st = Some ds" "date ds = dB" "timeSlot ds = tB"
      by (auto simp: isDraggingSameOrder_def split: option.splits)
    with assms(2) have "find (atSlot dB tB) (scheduledOrders st) = Some ds"
      by (auto simp: dragConsistent_def)
    with none show False by simp
  qed
  then show ?thesis using none assms(1)
    by (simp add: cellDrop_def dropAllowed_def hasOrder_def getScheduledOrder_def handleDrop_def
        Let_def)
qed

subsection \<open>One entry for a slot\<close>

lemma slotUnique_filter: "slotUnique xs \<Longrightarrow> slotUnique (filter P xs)"
  by (simp add: slotUnique_def distinct_map_filter)

lemma slotUnique_add:
  assumes "slotUnique xs" "\<forall>s \<in> set xs. \<not> atSlot d t s"
  shows "slotUnique (filter P xs @ [\<lparr>orderId = i, date = d, timeSlot = t\<rparr>])"
  using assms by (auto simp: slotUnique_def distinct_map_filter atSlot_def)

lemma slotUnique_same_slot:
  assumes "slotUnique xs" "a \<in> set xs" "b \<in> set xs" "date a = date b" "timeSlot a = timeSlot b"
  shows "a = b"
proof -
  from assms(1) have "inj_on (\<lambda>s. (date s, timeSlot s)) (set xs)"
    by (simp add: slotUnique_def distinct_map)
  then show ?thesis using assms(2-5) by (auto dest: inj_onD)
qed

lemma slotUnique_cellDrop:
  assumes "refsOk st" "slotUnique (scheduledOrders st)"
  shows "slotUnique (scheduledOrders (fst (cellDrop st d t)))"
proof (cases "isDraggingSameOrder st d t")
  case True
  then show ?thesis using assms(2) by (simp add: same_cell_keeps_entries)
next
  case False
  show ?thesis
  proof (cases "hasOrder st d t")
    case True
    then show ?thesis using assms(2) by (simp add: occupied_cell_keeps_entries)
  next
    case free: False
    then have "\<forall>s \<in> set (scheduledOrders st). \<not> atSlot d t s"
      using assms(1) by (rule free_cell_has_no_entry [rotated])
    then show ?thesis using False free assms(2)
      by (simp add: cellDrop_def dropAllowed_def handleDrop_def Let_def slotUnique_add
          split: option.splits)
  qed
qed

lemma slotUnique_step:
  "refsOk st \<Longrightarrow> slotUnique (scheduledOrders st) \<Longrightarrow> slotUnique (scheduledOrders (step st e))"
  by (cases e)
    (auto simp: slotUnique_cellDrop sidebarDragStart_def handleDragStart_def cellDragStart_def
      handleScheduledOrderDragStart_def cellDragOver_def handleDragOver_def
      cellDragEnd_def handleSidebarDragOver_def handleSidebarDragLeave_def
      handleSidebarDrop_def slotUnique_filter
      split: option.splits)

lemma slotUnique_run:
  "refsOk st \<Longrightarrow> slotUnique (scheduledOrders st) \<Longrightarrow> referencedOrdersStay st evs \<Longrightarrow>
   slotUnique (scheduledOrders (run st evs))"
  unfolding run_def
  by (induction evs arbitrary: st) (simp_all add: slotUnique_step refsOk_step)

section \<open>Slot occupancy\<close>

text \<open>
  As long as no change of the order collection removes an order that has an entry or is
  being dragged, every reachable state has at most one entry for each pair of a date and
  a slot.
\<close>

lemma slotUnique_while_referenced_orders_stay:
  "referencedOrdersStay (initial os) evs \<Longrightarrow> slotUnique (scheduledOrders (run (initial os) evs))"
  by (rule slotUnique_run) (simp_all add: refsOk_initial, simp add: initial_def slotUnique_def)

text \<open>
  C1. At every reachable state at most one entry occupies a pair of a date and a slot,
  also after an order whose entry is on the calendar was deleted. The code does not
  keep this. The gate of a cell asks whether the cell shows an order
  (\<^verbatim>\<open>getScheduledOrder(...) !== undefined\<close>), not whether the slot has an entry. ORD-1 is
  dropped on 2024-06-03 09:00 and then deleted from the collection: its entry stays, the
  cell shows nothing, and the drop of ORD-2 on the same cell is accepted. The run below
  ends with two entries for the one pair; the cell still shows nothing, since its lookup
  takes the first entry, and ORD-2 is not in the sidebar either.
\<close>

theorem deleted_order_slot_double_booked:
  "scheduledOrders (run (initial [ORD_1, ORD_2])
       [SidebarDragStart ORD_1, CellDrop ''2024-06-03'' ''09:00'', OrdersChanged [ORD_2],
        SidebarDragStart ORD_2, CellDrop ''2024-06-03'' ''09:00'']) =
     [\<lparr>orderId = ''ORD-1'', date = ''2024-06-03'', timeSlot = ''09:00''\<rparr>,
      \<lparr>orderId = ''ORD-2'', date = ''2024-06-03'', timeSlot = ''09:00''\<rparr>]
   \<and> \<not> slotUnique (scheduledOrders (run (initial [ORD_1, ORD_2])
       [SidebarDragStart ORD_1, CellDrop ''2024-06-03'' ''09:00'', OrdersChanged [ORD_2],
        SidebarDragStart ORD_2, CellDrop ''2024-06-03'' ''09:00'']))
   \<and> getScheduledOrder (run (initial [ORD_1, ORD_2])
       [SidebarDragStart ORD_1, CellDrop ''2024-06-03'' ''09:00'', OrdersChanged [ORD_2],
        SidebarDragStart ORD_2, CellDrop ''2024-06-03'' ''09:00'']) ''2024-06-03'' ''09:00'' = None
   \<and> unscheduledOrders (run (initial [ORD_1, ORD_2])
       [SidebarDragStart ORD_1, CellDrop ''2024-06-03'' ''09:00'', OrdersChanged [ORD_2],
        SidebarDragStart ORD_2, CellDrop ''2024-06-03'' ''09:00'']) = []"
  by (simp add: example_defs slotUnique_def)

text \<open>
  What the gate does keep. When the lookup \<^verbatim>\<open>getScheduledOrder\<close> of the cell yields
  an order whose id is not the id of the order being dragged, then, in every state, the
  entries after the drop are the entries before it and \<^verbatim>\<open>onOrderScheduled\<close> is not
  called; in every reachable state the gate refuses the drop, so that \<^verbatim>\<open>handleDrop\<close>
  does not run and the whole state is unchanged. And in a state whose entries all
  reference orders of the collection, a drop on a slot that has an entry, of whichever
  order, leaves the entries as they are.
\<close>

lemma drop_on_shown_order_rejected:
  "(draggedOrder st = Some dragged \<and> getScheduledOrder st d t = Some occupant
      \<and> ident occupant \<noteq> ident dragged
    \<longrightarrow> scheduledOrders (fst (cellDrop st d t)) = scheduledOrders st
        \<and> snd (cellDrop st d t) = None
        \<and> (st = run (initial os) evs \<longrightarrow> \<not> dropAllowed st d t \<and> cellDrop st d t = (st, None)))
   \<and> (refsOk st \<and> s \<in> set (scheduledOrders st) \<and> atSlot d t s
    \<longrightarrow> scheduledOrders (fst (cellDrop st d t)) = scheduledOrders st
        \<and> snd (cellDrop st d t) = None)"
proof (intro conjI impI)
  assume a: "draggedOrder st = Some dragged \<and> getScheduledOrder st d t = Some occupant
      \<and> ident occupant \<noteq> ident dragged"
  then have occupied: "hasOrder st d t" by (simp add: hasOrder_def)
  then show "scheduledOrders (fst (cellDrop st d t)) = scheduledOrders st"
    and "snd (cellDrop st d t) = None"
    by (simp_all add: occupied_cell_keeps_entries)
  assume "st = run (initial os) evs"
  then have "dragConsistent st"
    by (simp add: dragConsistent_run dragConsistent_initial)
  then have "\<not> isDraggingSameOrder st d t"
    using a not_dragging_occupant [of st dragged d t occupant] by simp
  then show "\<not> dropAllowed st d t" and "cellDrop st d t = (st, None)"
    using occupied by (simp_all add: cellDrop_def dropAllowed_def)
next
  assume "refsOk st \<and> s \<in> set (scheduledOrders st) \<and> atSlot d t s"
  then have "hasOrder st d t" using entry_makes_cell_occupied [of st s d t] by simp
  then show "scheduledOrders (fst (cellDrop st d t)) = scheduledOrders st"
    and "snd (cellDrop st d t) = None"
    by (simp_all add: occupied_cell_keeps_entries)
qed

text \<open>
  The scenario of the spec: ORD-1 is at 2024-06-03 09:00, ORD-2 is dragged from the
  sidebar and dropped on that cell. The drop is refused and ORD-1 keeps the slot.
\<close>

lemma drop_on_shown_order_rejected_example:
  "cellDrop (run (initial [ORD_1, ORD_2])
       [SidebarDragStart ORD_1, CellDrop ''2024-06-03'' ''09:00'', SidebarDragStart ORD_2])
     ''2024-06-03'' ''09:00''
   = (run (initial [ORD_1, ORD_2])
       [SidebarDragStart ORD_1, CellDrop ''2024-06-03'' ''09:00'', SidebarDragStart ORD_2], None)
   \<and> scheduledOrders (run (initial [ORD_1, ORD_2])
       [SidebarDragStart ORD_1, CellDrop ''2024-06-03'' ''09:00'', SidebarDragStart ORD_2])
     = [\<lparr>orderId = ''ORD-1'', date = ''2024-06-03'', timeSlot = ''09:00''\<rparr>]
   \<and> ident ORD_1 \<noteq> ident ORD_2"
proof -
  let ?evs = "[SidebarDragStart ORD_1, CellDrop ''2024-06-03'' ''09:00'', SidebarDragStart ORD_2]"
  let ?st = "run (initial [ORD_1, ORD_2]) ?evs"
  have dragged: "draggedOrder ?st = Some ORD_2"
    by (simp add: example_defs)
  have shown: "getScheduledOrder ?st ''2024-06-03'' ''09:00'' = Some ORD_1"
    by (simp add: example_defs)
  have other: "ident ORD_1 \<noteq> ident ORD_2"
    by (simp add: ORD_1_def ORD_2_def)
  have entries: "scheduledOrders ?st
      = [\<lparr>orderId = ''ORD-1'', date = ''2024-06-03'', timeSlot = ''09:00''\<rparr>]"
    by (simp add: example_defs)
  from drop_on_shown_order_rejected
    [of ?st ORD_2 "''2024-06-03''" "''09:00''" ORD_1 "[ORD_1, ORD_2]" ?evs]
  show ?thesis using dragged shown other entries by simp
qed

text \<open>
  C2. A drop on a slot that is occupied by another order is rejected and leaves the
  entries as they are, in every state. The code does not keep this, by the defect of
  C1: the gate asks whether the cell shows an order, and the entry of an order that is
  no longer in the collection shows none. ORD-1 is dropped on 2024-06-03 09:00 and then
  deleted from the collection; ORD-2 is dragged from the sidebar. The slot holds the
  entry of ORD-1, another order than the one being dragged, and yet \<^verbatim>\<open>hasOrder\<close> is
  false, the gate lets the drop through, \<^verbatim>\<open>handleDrop\<close> appends an entry of ORD-2 for
  the same slot and calls \<^verbatim>\<open>onOrderScheduled\<close>.
\<close>

theorem drop_on_stale_entry_accepted:
  "scheduledOrders (run (initial [ORD_1, ORD_2])
       [SidebarDragStart ORD_1, CellDrop ''2024-06-03'' ''09:00'', OrdersChanged [ORD_2],
        SidebarDragStart ORD_2])
     = [\<lparr>orderId = ''ORD-1'', date = ''2024-06-03'', timeSlot = ''09:00''\<rparr>]
   \<and> draggedOrder (run (initial [ORD_1, ORD_2])
       [SidebarDragStart ORD_1, CellDrop ''2024-06-03'' ''09:00'', OrdersChanged [ORD_2],
        SidebarDragStart ORD_2]) = Some ORD_2
   \<and> \<not> hasOrder (run (initial [ORD_1, ORD_2])
       [SidebarDragStart ORD_1, CellDrop ''2024-06-03'' ''09:00'', OrdersChanged [ORD_2],
        SidebarDragStart ORD_2]) ''2024-06-03'' ''09:00''
   \<and> scheduledOrders (fst (cellDrop (run (initial [ORD_1, ORD_2])
       [SidebarDragStart ORD_1, CellDrop ''2024-06-03'' ''09:00'', OrdersChanged [ORD_2],
        SidebarDragStart ORD_2]) ''2024-06-03'' ''09:00''))
     = [\<lparr>orderId = ''ORD-1'', date = ''2024-06-03'', timeSlot = ''09:00''\<rparr>,
        \<lparr>orderId = ''ORD-2'', date = ''2024-06-03'', timeSlot = ''09:00''\<rparr>]
   \<and> snd (cellDrop (run (initial [ORD_1, ORD_2])
       [SidebarDragStart ORD_1, CellDrop ''2024-06-03'' ''09:00'', OrdersChanged [ORD_2],
        SidebarDragStart ORD_2]) ''2024-06-03'' ''09:00'')
     = Some (''ORD-2'', ''2024-06-03'', ''09:00'')"
  by (simp add: example_defs)

section \<open>Move semantics\<close>

lemma move_entries:
  assumes "\<lparr>orderId = i, date = dA, timeSlot = tA\<rparr> \<in> set xs"
    and "slotUnique xs"
    and "(dA, tA) \<noteq> (dB, tB)"
    and "\<forall>s \<in> set xs. \<not> atSlot dB tB s"
  defines "new \<equiv> \<lparr>orderId = i, date = dB, timeSlot = tB\<rparr>"
  defines "ys \<equiv> filter (\<lambda>s. orderId s \<noteq> i) xs @ [new]"
  shows "filter (atSlot dA tA) ys = []"
    and "filter (atSlot dB tB) ys = [new]"
    and "filter (\<lambda>s. orderId s = i) ys = [new]"
    and "filter (\<lambda>s. orderId s \<noteq> i) ys = filter (\<lambda>s. orderId s \<noteq> i) xs"
proof -
  have "orderId s = i" if "s \<in> set xs" "atSlot dA tA s" for s
  proof -
    from that(2) have "date s = dA" "timeSlot s = tA"
      by (simp_all add: atSlot_def)
    then have "s = \<lparr>orderId = i, date = dA, timeSlot = tA\<rparr>"
      using slotUnique_same_slot [OF assms(2) that(1) assms(1)] by simp
    then show ?thesis by simp
  qed
  then have "filter (atSlot dA tA) (filter (\<lambda>s. orderId s \<noteq> i) xs) = []"
    by (auto simp: filter_empty_conv)
  moreover have "\<not> atSlot dA tA new"
    using assms(3) by (auto simp: new_def atSlot_def)
  ultimately show "filter (atSlot dA tA) ys = []" by (simp add: ys_def)
  have "filter (atSlot dB tB) (filter (\<lambda>s. orderId s \<noteq> i) xs) = []"
    using assms(4) by (auto simp: filter_empty_conv)
  then show "filter (atSlot dB tB) ys = [new]" by (simp add: ys_def new_def atSlot_def)
  show "filter (\<lambda>s. orderId s = i) ys = [new]"
    by (simp add: ys_def new_def filter_empty_conv)
  show "filter (\<lambda>s. orderId s \<noteq> i) ys = filter (\<lambda>s. orderId s \<noteq> i) xs"
    by (simp add: ys_def new_def)
qed

text \<open>
  What a move does keep. The order being dragged has its entry at slot A, the entries
  have one entry for a slot, and slot B, another slot, has no entry. Then the drop on B
  is accepted; the entries after it are the entries of the other orders, unchanged and
  in their order, and one new entry; no entry is left at A; the entry at B is the
  order's; and the order has exactly that one entry. Moreover every event keeps the
  property that no two entries reference one order id, and every reachable state has it
  (a drop on a cell, a drop on the sidebar and a change of the order collection are
  events).
\<close>

lemma move_to_free_slot:
  assumes "draggedOrder st = Some dragged"
    and "dragConsistent st"
    and "\<lparr>orderId = ident dragged, date = dA, timeSlot = tA\<rparr> \<in> set (scheduledOrders st)"
    and "slotUnique (scheduledOrders st)"
    and "(dA, tA) \<noteq> (dB, tB)"
    and "\<forall>s \<in> set (scheduledOrders st). \<not> atSlot dB tB s"
  shows "scheduledOrders (fst (cellDrop st dB tB)) =
      filter (\<lambda>s. orderId s \<noteq> ident dragged) (scheduledOrders st)
        @ [\<lparr>orderId = ident dragged, date = dB, timeSlot = tB\<rparr>]
    \<and> filter (atSlot dA tA) (scheduledOrders (fst (cellDrop st dB tB))) = []
    \<and> filter (atSlot dB tB) (scheduledOrders (fst (cellDrop st dB tB))) =
        [\<lparr>orderId = ident dragged, date = dB, timeSlot = tB\<rparr>]
    \<and> filter (\<lambda>s. orderId s = ident dragged) (scheduledOrders (fst (cellDrop st dB tB))) =
        [\<lparr>orderId = ident dragged, date = dB, timeSlot = tB\<rparr>]
    \<and> (orderUnique (scheduledOrders st') \<longrightarrow> orderUnique (scheduledOrders (step st' e)))
    \<and> orderUnique (scheduledOrders (run (initial os) evs))"
proof -
  have drop: "scheduledOrders (fst (cellDrop st dB tB)) =
      filter (\<lambda>s. orderId s \<noteq> ident dragged) (scheduledOrders st)
        @ [\<lparr>orderId = ident dragged, date = dB, timeSlot = tB\<rparr>]"
    using free_cell_accepts_drop [OF assms(1,2,6)] by simp
  have "orderUnique (scheduledOrders (initial os))"
    by (simp add: initial_def orderUnique_def)
  then have "orderUnique (scheduledOrders (run (initial os) evs))"
    by (rule orderUnique_run)
  then show ?thesis
    using drop move_entries [OF assms(3-6)] orderUnique_step [of st' e] by simp
qed

text \<open>
  The scenario of the spec: ORD-1 is at 2024-06-03 09:00, is dragged from its cell and
  dropped on 2024-06-04 10:30.
\<close>

lemma move_to_free_slot_example:
  "scheduledOrders (fst (cellDrop (run (initial [ORD_1, ORD_2])
        [SidebarDragStart ORD_1, CellDrop ''2024-06-03'' ''09:00'',
         CellDragStart ''2024-06-03'' ''09:00'']) ''2024-06-04'' ''10:30''))
     = [\<lparr>orderId = ''ORD-1'', date = ''2024-06-04'', timeSlot = ''10:30''\<rparr>]
   \<and> scheduledOrders (run (initial [ORD_1, ORD_2])
        [SidebarDragStart ORD_1, CellDrop ''2024-06-03'' ''09:00'',
         CellDragStart ''2024-06-03'' ''09:00''])
     = [\<lparr>orderId = ''ORD-1'', date = ''2024-06-03'', timeSlot = ''09:00''\<rparr>]"
proof -
  let ?st = "run (initial [ORD_1, ORD_2])
        [SidebarDragStart ORD_1, CellDrop ''2024-06-03'' ''09:00'',
         CellDragStart ''2024-06-03'' ''09:00'']"
  have st: "?st =
      \<lparr>orders = [ORD_1, ORD_2],
       scheduledOrders = [\<lparr>orderId = ''ORD-1'', date = ''2024-06-03'', timeSlot = ''09:00''\<rparr>],
       draggedOrder = Some ORD_1,
       draggedScheduledOrder =
         Some \<lparr>orderId = ''ORD-1'', date = ''2024-06-03'', timeSlot = ''09:00''\<rparr>,
       isDragOverSidebar = False, dragOverTimeSlot = None\<rparr>"
    by (simp add: example_defs)
  have 1: "draggedOrder ?st = Some ORD_1" by (simp add: st)
  have 2: "dragConsistent ?st" by (simp add: st dragConsistent_def atSlot_def ident_ORD_1)
  have 3: "\<lparr>orderId = ident ORD_1, date = ''2024-06-03'', timeSlot = ''09:00''\<rparr>
      \<in> set (scheduledOrders ?st)"
    by (simp add: st ident_ORD_1)
  have 4: "slotUnique (scheduledOrders ?st)" by (simp add: st slotUnique_def)
  have 5: "(''2024-06-03'', ''09:00'') \<noteq> (''2024-06-04'', ''10:30'')" by simp
  have 6: "\<forall>s \<in> set (scheduledOrders ?st). \<not> atSlot ''2024-06-04'' ''10:30'' s"
    by (simp add: st atSlot_def)
  from move_to_free_slot [OF 1 2 3 4 5 6]
  show ?thesis by (simp add: st ident_ORD_1)
qed

text \<open>
  C3. Moving an order from slot A to a free slot B leaves A empty, B with the order and
  the order with one entry. The code does not keep the first of the three in a state
  that the defect of C1 has led to: \<^verbatim>\<open>handleDrop\<close> removes the entries of the order being
  dragged and no other, so that a slot that was booked twice stays booked. After the
  run of C1 the slot 2024-06-03 09:00 has the entries of ORD-1 and of ORD-2; ORD-1 comes
  back into the collection, its cell shows it, it is dragged from there and dropped on
  the free slot 2024-06-04 10:30. Afterwards ORD-1 has its one entry at the new slot, and
  the slot it left still holds the entry of ORD-2.
\<close>

theorem move_leaves_double_booked_slot_occupied:
  "scheduledOrders (run (initial [ORD_1, ORD_2])
       [SidebarDragStart ORD_1, CellDrop ''2024-06-03'' ''09:00'', OrdersChanged [ORD_2],
        SidebarDragStart ORD_2, CellDrop ''2024-06-03'' ''09:00'',
        OrdersChanged [ORD_1, ORD_2], CellDragStart ''2024-06-03'' ''09:00''])
     = [\<lparr>orderId = ''ORD-1'', date = ''2024-06-03'', timeSlot = ''09:00''\<rparr>,
        \<lparr>orderId = ''ORD-2'', date = ''2024-06-03'', timeSlot = ''09:00''\<rparr>]
   \<and> draggedOrder (run (initial [ORD_1, ORD_2])
       [SidebarDragStart ORD_1, CellDrop ''2024-06-03'' ''09:00'', OrdersChanged [ORD_2],
        SidebarDragStart ORD_2, CellDrop ''2024-06-03'' ''09:00'',
        OrdersChanged [ORD_1, ORD_2], CellDragStart ''2024-06-03'' ''09:00'']) = Some ORD_1
   \<and> scheduledOrders (run (initial [ORD_1, ORD_2])
       [SidebarDragStart ORD_1, CellDrop ''2024-06-03'' ''09:00'', OrdersChanged [ORD_2],
        SidebarDragStart ORD_2, CellDrop ''2024-06-03'' ''09:00'',
        OrdersChanged [ORD_1, ORD_2], CellDragStart ''2024-06-03'' ''09:00'',
        CellDrop ''2024-06-04'' ''10:30''])
     = [\<lparr>orderId = ''ORD-2'', date = ''2024-06-03'', timeSlot = ''09:00''\<rparr>,
        \<lparr>orderId = ''ORD-1'', date = ''2024-06-04'', timeSlot = ''10:30''\<rparr>]
   \<and> filter (atSlot ''2024-06-03'' ''09:00'')
       (scheduledOrders (run (initial [ORD_1, ORD_2])
         [SidebarDragStart ORD_1, CellDrop ''2024-06-03'' ''09:00'', OrdersChanged [ORD_2],
          SidebarDragStart ORD_2, CellDrop ''2024-06-03'' ''09:00'',
          OrdersChanged [ORD_1, ORD_2], CellDragStart ''2024-06-03'' ''09:00'',
          CellDrop ''2024-06-04'' ''10:30'']))
     = [\<lparr>orderId = ''ORD-2'', date = ''2024-06-03'', timeSlot = ''09:00''\<rparr>]"
  by (simp add: example_defs)

section \<open>Idempotence of scheduling\<close>

text \<open>
  C4. Scheduling an order at the slot it already has changes nothing. First part: the
  cell shows the order being dragged (the lookup of the cell yields an order with its
  id); then the drop leaves the list of entries as it is and \<^verbatim>\<open>onOrderScheduled\<close> is
  not called. Second part: the order being dragged has its entry at the slot and no
  two entries reference one order id; then the set of entries after the drop is the set
  before it. Third part, the gesture made twice: after any drop on a cell, dragging
  what that cell shows and dropping it on the same cell again leaves the entries as the
  first drop left them.
\<close>

theorem reschedule_same_slot_is_noop:
  "(draggedOrder st = Some dragged \<and> getScheduledOrder st d t = Some shown
      \<and> ident shown = ident dragged
    \<longrightarrow> scheduledOrders (fst (cellDrop st d t)) = scheduledOrders st
        \<and> snd (cellDrop st d t) = None)
   \<and> (draggedOrder st = Some dragged
      \<and> \<lparr>orderId = ident dragged, date = d, timeSlot = t\<rparr> \<in> set (scheduledOrders st)
      \<and> orderUnique (scheduledOrders st)
    \<longrightarrow> set (scheduledOrders (fst (cellDrop st d t))) = set (scheduledOrders st))
   \<and> scheduledOrders (fst (cellDrop (cellDragStart (fst (cellDrop st d t)) d t) d t))
       = scheduledOrders (fst (cellDrop st d t))"
proof (intro conjI impI)
  assume "draggedOrder st = Some dragged \<and> getScheduledOrder st d t = Some shown
      \<and> ident shown = ident dragged"
  then have "hasOrder st d t" by (simp add: hasOrder_def)
  then show "scheduledOrders (fst (cellDrop st d t)) = scheduledOrders st"
    and "snd (cellDrop st d t) = None"
    by (simp_all add: occupied_cell_keeps_entries)
next
  let ?e = "\<lparr>orderId = ident dragged, date = d, timeSlot = t\<rparr>"
  assume a: "draggedOrder st = Some dragged \<and> ?e \<in> set (scheduledOrders st)
      \<and> orderUnique (scheduledOrders st)"
  have same: "s = ?e" if "s \<in> set (scheduledOrders st)" "orderId s = ident dragged" for s
    using a that orderUnique_same_order [of "scheduledOrders st" s ?e] by simp
  have "set (filter (\<lambda>s. orderId s \<noteq> ident dragged) (scheduledOrders st) @ [?e])
      = set (scheduledOrders st)"
    using a same by auto
  then show "set (scheduledOrders (fst (cellDrop st d t))) = set (scheduledOrders st)"
    using a by (simp add: cellDrop_def handleDrop_def Let_def)
next
  let ?st1 = "fst (cellDrop st d t)"
  show "scheduledOrders (fst (cellDrop (cellDragStart ?st1 d t) d t)) = scheduledOrders ?st1"
  proof (cases "getScheduledOrder ?st1 d t")
    case None
    have "draggedOrder ?st1 = None"
    proof (cases "dropAllowed st d t")
      case True
      then show ?thesis
        by (simp add: cellDrop_def handleDrop_def Let_def split: option.splits)
    next
      case False
      then have "?st1 = st" "hasOrder st d t"
        by (simp_all add: cellDrop_def dropAllowed_def)
      with None show ?thesis by (simp add: hasOrder_def)
    qed
    moreover have "cellDragStart ?st1 d t = ?st1"
      using None by (simp add: cellDragStart_def)
    ultimately show ?thesis
      by (simp add: nothing_dragged_keeps_entries)
  next
    case (Some shown)
    then obtain s where s: "find (atSlot d t) (scheduledOrders ?st1) = Some s"
      by (auto simp: getScheduledOrder_def split: option.splits)
    then have "atSlot d t s" by (simp add: find_SomeD)
    then have "isDraggingSameOrder (cellDragStart ?st1 d t) d t"
      using Some s
      by (simp add: cellDragStart_def handleScheduledOrderDragStart_def isDraggingSameOrder_def
          atSlot_def)
    moreover have "scheduledOrders (cellDragStart ?st1 d t) = scheduledOrders ?st1"
      by (simp add: cellDragStart_def handleScheduledOrderDragStart_def split: option.splits)
    ultimately show ?thesis
      by (simp add: same_cell_keeps_entries)
  qed
qed

text \<open>ORD-1 is at 2024-06-03 09:00, is dragged from its cell and dropped on it again.\<close>

theorem reschedule_same_slot_is_noop_witness:
  "scheduledOrders (fst (cellDrop (run (initial [ORD_1, ORD_2])
        [SidebarDragStart ORD_1, CellDrop ''2024-06-03'' ''09:00'',
         CellDragStart ''2024-06-03'' ''09:00'']) ''2024-06-03'' ''09:00''))
     = [\<lparr>orderId = ''ORD-1'', date = ''2024-06-03'', timeSlot = ''09:00''\<rparr>]
   \<and> scheduledOrders (run (initial [ORD_1, ORD_2])
        [SidebarDragStart ORD_1, CellDrop ''2024-06-03'' ''09:00'',
         CellDragStart ''2024-06-03'' ''09:00''])
     = [\<lparr>orderId = ''ORD-1'', date = ''2024-06-03'', timeSlot = ''09:00''\<rparr>]"
proof -
  let ?st = "run (initial [ORD_1, ORD_2])
        [SidebarDragStart ORD_1, CellDrop ''2024-06-03'' ''09:00'',
         CellDragStart ''2024-06-03'' ''09:00'']"
  have st: "?st =
      \<lparr>orders = [ORD_1, ORD_2],
       scheduledOrders = [\<lparr>orderId = ''ORD-1'', date = ''2024-06-03'', timeSlot = ''09:00''\<rparr>],
       draggedOrder = Some ORD_1,
       draggedScheduledOrder =
         Some \<lparr>orderId = ''ORD-1'', date = ''2024-06-03'', timeSlot = ''09:00''\<rparr>,
       isDragOverSidebar = False, dragOverTimeSlot = None\<rparr>"
    by (simp add: example_defs)
  have shown: "getScheduledOrder ?st ''2024-06-03'' ''09:00'' = Some ORD_1"
    by (simp add: st getScheduledOrder_def atSlot_def ident_ORD_1)
  from reschedule_same_slot_is_noop [of ?st ORD_1 "''2024-06-03''" "''09:00''" ORD_1]
  show ?thesis using shown by (simp add: st)
qed

section \<open>Entries and the order collection\<close>




section \<open>Frame of the scheduling operations\<close>

text \<open>
  C9. Scheduling an order by a drop on a cell (which covers the move to another slot),
  whether the cell accepts the drop or not, and unscheduling it by a drop on the
  sidebar leave the order collection as it was: every Order record is the same.
\<close>

theorem scheduling_leaves_orders_unchanged:
  "orders (fst (cellDrop st dateStr slot)) = orders st
   \<and> orders (fst (handleDrop st dateStr slot)) = orders st
   \<and> orders (handleSidebarDrop st) = orders st"
  by (simp add: cellDrop_def handleDrop_def handleSidebarDrop_def Let_def split: option.splits)

section \<open>The table view\<close>

lemma insertBy_zero: "insertBy (\<lambda>a b. 0) x xs = x # xs"
  by (cases xs) simp_all

lemma arraySort_zero: "arraySort (\<lambda>a b. 0) xs = xs"
  unfolding arraySort_def by (induction xs) (simp_all add: insertBy_zero)

lemma compareOrders_no_field: "compareOrders rt None dir = (\<lambda>a b. 0)"
  by (rule ext, rule ext) (simp add: compareOrders_def truthy_def)

text \<open>
  C6, as the code has it. The tab filter tests \<^verbatim>\<open>driverId\<close> for truth, so that an empty
  \<^verbatim>\<open>driverId\<close> counts as none: tab all passes every order; unassigned passes an order
  whose \<^verbatim>\<open>driverId\<close> is absent or empty; assigned passes an order whose \<^verbatim>\<open>driverId\<close> is
  present and not empty and whose status is not finished; finished passes an order
  whose status is finished. For the orders ORD-1 (active, no driver) and ORD-2
  (finished, driver EMP-1) tab unassigned yields ORD-1 alone, from the tab filter and
  from the whole view with the other filters at their defaults.
\<close>

theorem tab_filter_cases:
  "matchesTab tab order =
     (case tab of
        TabAll \<Rightarrow> True
      | TabUnassigned \<Rightarrow> driverId order = None \<or> driverId order = Some []
      | TabAssigned \<Rightarrow>
          driverId order \<noteq> None \<and> driverId order \<noteq> Some [] \<and> status order \<noteq> Some finished
      | TabFinished \<Rightarrow> status order = Some finished)
   \<and> map ident (filter (matchesTab TabUnassigned) [ORD_1, ORD_2]) = [''ORD-1'']
   \<and> map ident (filteredOrders rt
        \<lparr>activeTab = TabUnassigned, selectedDriver = None, searchQuery = [], sortField = None,
         sortDirection = dir, dateRangeStart = [], dateRangeEnd = [], dateRangeType = ty\<rparr>
        employees [ORD_1, ORD_2]) = [''ORD-1'']"
  by (auto simp: matchesTab_def truthy_def ORD_1_def ORD_2_def filteredOrders_def
      compareOrders_no_field arraySort_zero passesFilter_def split: Tab.splits option.splits)

text \<open>
  The claim as the spec has it fails: ORD-1 with the empty string for its \<^verbatim>\<open>driverId\<close>
  passes tab unassigned, and its \<^verbatim>\<open>driverId\<close> is not absent.
\<close>

theorem empty_driverId_passes_unassigned:
  "\<not> (matchesTab TabUnassigned (ORD_1\<lparr>driverId := Some []\<rparr>)
        \<longleftrightarrow> driverId (ORD_1\<lparr>driverId := Some []\<rparr>) = None)"
  by (simp add: matchesTab_def truthy_def)

text \<open>
  C7. With tab all, no selected driver, an empty search query, no bound of the date
  range and no sort field, the view is the order collection itself: the same orders in
  the same order.
\<close>

theorem default_view_is_identity:
  "filteredOrders rt
     \<lparr>activeTab = TabAll, selectedDriver = None, searchQuery = [], sortField = None,
      sortDirection = dir, dateRangeStart = [], dateRangeEnd = [], dateRangeType = ty\<rparr>
     employees os = os"
  by (simp add: filteredOrders_def compareOrders_no_field arraySort_zero passesFilter_def
      matchesTab_def truthy_def)

section \<open>Frame of the edit form\<close>

lemma handleSubmit_edit:
  assumes "editingOrderId form = Some eid" "eid \<noteq> []"
  shows "fst (handleSubmit rt now form os) =
    map (\<lambda>order. if ident order = eid then applyForm rt (formData form) order else order) os"
  using assms by (simp add: handleSubmit_def truthy_def)

lemma applyForm_frame:
  "ident (applyForm rt fd order) = ident order \<and> status (applyForm rt fd order) = status order
   \<and> driverId (applyForm rt fd order) = driverId order"
  by (simp add: applyForm_def)

text \<open>
  C10. The form is submitted while an order id is being edited. Every order of the
  collection keeps its place, its id, its status and its \<^verbatim>\<open>driverId\<close>; an order with
  another id is unchanged; and (the edit branch, taken when the id is not empty) the
  collection keeps its length and an order with the id becomes itself with the nine form
  fields set from the form: \<open>applyForm\<close> writes customer, cargoDescription, price,
  pickupTime, pickupAddress, deliverBeforeTime, deliverBeforeAddress, equipmentType and
  employeeId, and nothing else.
\<close>

theorem edit_changes_only_form_fields:
  "editingOrderId form = Some eid \<Longrightarrow> i < length os \<Longrightarrow>
     ident (fst (handleSubmit rt now form os) ! i) = ident (os ! i)
     \<and> status (fst (handleSubmit rt now form os) ! i) = status (os ! i)
     \<and> driverId (fst (handleSubmit rt now form os) ! i) = driverId (os ! i)
     \<and> (ident (os ! i) \<noteq> eid \<longrightarrow> fst (handleSubmit rt now form os) ! i = os ! i)
     \<and> (eid \<noteq> [] \<longrightarrow>
          length (fst (handleSubmit rt now form os)) = length os
          \<and> (ident (os ! i) = eid \<longrightarrow>
               fst (handleSubmit rt now form os) ! i = applyForm rt (formData form) (os ! i)))"
proof (cases "eid = []")
  case True
  assume "editingOrderId form = Some eid" "i < length os"
  then show ?thesis using True by (simp add: handleSubmit_def truthy_def nth_append)
next
  case False
  assume "editingOrderId form = Some eid" "i < length os"
  then show ?thesis using False
    by (simp add: handleSubmit_edit applyForm_frame)
qed

text \<open>
  ORD-1, the second order of the collection, is edited: a new price, new times and
  another equipment type.
\<close>

theorem edit_changes_only_form_fields_witness:
  "fst (handleSubmit exampleRuntime ''1717400000000'' exampleForm [ORD_2, ORD_1]) ! 1 =
     ORD_1\<lparr>price := 1800, pickupTime := ''2024-06-03T10:00'',
       deliverBeforeTime := ''2024-06-03T14:00'', equipmentType := ''Truck - 20ft''\<rparr>
   \<and> ident (fst (handleSubmit exampleRuntime ''1717400000000'' exampleForm [ORD_2, ORD_1]) ! 1)
       = ''ORD-1''
   \<and> length (fst (handleSubmit exampleRuntime ''1717400000000'' exampleForm [ORD_2, ORD_1])) = 2
   \<and> editingOrderId exampleForm = Some ''ORD-1''"
proof -
  have 1: "editingOrderId exampleForm = Some ''ORD-1''" by (simp add: exampleForm_def)
  have 2: "(1::nat) < length [ORD_2, ORD_1]" by simp
  from edit_changes_only_form_fields [OF 1 2, of exampleRuntime "''1717400000000''"]
  show ?thesis
    by (simp add: 1 ORD_1_def applyForm_def exampleForm_def exampleRuntime_def priceOf_def
        orUndefined_def)
qed

section \<open>Export, then import\<close>

lemma defineProperty_new:
  "k \<notin> fst ` set ps \<Longrightarrow> defineProperty k v ps = ps @ [(k, v)]"
  by (induction ps) auto

lemma foldl_defineProperty:
  "distinct (map fst (acc @ ms)) \<Longrightarrow>
   foldl (\<lambda>ps (k, v). defineProperty k v ps) acc ms = acc @ ms"
proof (induction ms arbitrary: acc)
  case Nil
  then show ?case by simp
next
  case (Cons m ms)
  obtain k v where m: "m = (k, v)" by (cases m)
  from Cons.prems have new: "k \<notin> fst ` set acc" by (auto simp: m)
  from Cons.prems have "distinct (map fst ((acc @ [(k, v)]) @ ms))" by (auto simp: m)
  then have "foldl (\<lambda>ps (k, v). defineProperty k v ps) (acc @ [(k, v)]) ms = (acc @ [(k, v)]) @ ms"
    by (rule Cons.IH)
  then show ?case by (simp add: m defineProperty_new [OF new])
qed

lemma defineAll_distinct: "distinct (map fst ms) \<Longrightarrow> defineAll ms = ms"
  using foldl_defineProperty [of "[]" ms] by (simp add: defineAll_def)

lemma elements_roundtrip:
  "\<forall>v \<in> set vs. \<exists>j. serialize v = Some j \<and> reify j = f v \<Longrightarrow>
   map reify (map (\<lambda>v. case serialize v of None \<Rightarrow> JsonNull | Some j \<Rightarrow> j) vs) = map f vs"
  by (induction vs) auto

lemma properties_roundtrip:
  "\<forall>(k, v) \<in> set ps. v \<noteq> JUndefined \<longrightarrow> (\<exists>j. serialize v = Some j \<and> reify j = f v) \<Longrightarrow>
   \<forall>(k, v) \<in> set ps. v = JUndefined \<longrightarrow> serialize v = None \<Longrightarrow>
   map (\<lambda>(k, j). (k, reify j))
     (concat (map (\<lambda>(k, v). case serialize v of None \<Rightarrow> [] | Some j \<Rightarrow> [(k, j)]) ps))
   = map (\<lambda>(k, v). (k, f v)) (filter (\<lambda>(k, v). v \<noteq> JUndefined) ps)"
  by (induction ps) auto

lemma serialize_reify:
  "distinctKeys v \<Longrightarrow> representable v \<Longrightarrow> \<exists>j. serialize v = Some j \<and> reify j = omitUndefined v"
proof (induction v)
  case (JArray vs)
  then have "\<forall>v \<in> set vs. \<exists>j. serialize v = Some j \<and> reify j = omitUndefined v"
    by (auto simp: list_all_iff)
  then show ?case using elements_roundtrip [of vs omitUndefined] by simp
next
  case (JObject ps)
  have "\<forall>(k, v) \<in> set ps. v \<noteq> JUndefined \<longrightarrow> (\<exists>j. serialize v = Some j \<and> reify j = omitUndefined v)"
  proof (clarify)
    fix k v assume kv: "(k, v) \<in> set ps" "v \<noteq> JUndefined"
    then have "distinctKeys v" "representable v"
      using JObject.prems by (auto simp: list_all_iff)
    moreover have "v \<in> Basic_BNFs.snds (k, v)" by simp
    ultimately show "\<exists>j. serialize v = Some j \<and> reify j = omitUndefined v"
      using JObject.IH kv(1) by blast
  qed
  then have "map (\<lambda>(k, j). (k, reify j))
     (concat (map (\<lambda>(k, v). case serialize v of None \<Rightarrow> [] | Some j \<Rightarrow> [(k, j)]) ps))
   = map (\<lambda>(k, v). (k, omitUndefined v)) (filter (\<lambda>(k, v). v \<noteq> JUndefined) ps)"
    by (rule properties_roundtrip) auto
  moreover have "distinct (map fst (map (\<lambda>(k, v). (k, omitUndefined v))
      (filter (\<lambda>(k, v). v \<noteq> JUndefined) ps)))"
  proof -
    have eq: "map fst (map (\<lambda>(k, v). (k, omitUndefined v)) xs) = map fst xs" for xs
      by (induction xs) auto
    have "distinct (map fst (filter (\<lambda>(k, v). v \<noteq> JUndefined) ps))"
      using JObject.prems(1) by (simp add: distinct_map_filter)
    then show ?thesis by (simp only: eq)
  qed
  ultimately show ?case by (simp add: defineAll_distinct)
qed (auto split: Number.splits)

lemma jsonSafe_representable: "jsonSafe v \<Longrightarrow> representable v \<and> omitUndefined v = v"
proof (induction v)
  case (JArray vs)
  then show ?case by (auto simp: list_all_iff map_idI)
next
  case (JObject ps)
  have each: "v \<noteq> JUndefined \<and> representable v \<and> omitUndefined v = v" if "(k, v) \<in> set ps" for k v
  proof -
    have safe: "jsonSafe v" using JObject.prems that by (auto simp: list_all_iff)
    then have "v \<noteq> JUndefined" by auto
    moreover have "v \<in> Basic_BNFs.snds (k, v)" by simp
    then have "representable v \<and> omitUndefined v = v"
      using JObject.IH that safe by blast
    ultimately show ?thesis by simp
  qed
  then have "filter (\<lambda>(k, v). v \<noteq> JUndefined) ps = ps"
    by (auto simp: filter_id_conv)
  moreover have "map (\<lambda>(k, v). (k, omitUndefined v)) ps = ps"
    using each by (auto intro!: map_idI)
  ultimately show ?case using each by (auto simp: list_all_iff)
qed auto

lemma export_import_representable:
  assumes "distinctKeys v" "representable v"
  shows "importFromJSON (exportAsJSON v filename) = Inr (omitUndefined v)"
proof -
  from assms obtain j where "serialize v = Some j" "reify j = omitUndefined v"
    using serialize_reify by blast
  then show ?thesis
    by (simp add: importFromJSON_def exportAsJSON_def stringify_def parse_def)
qed

lemma orderObject_distinctKeys: "distinctKeys (orderObject order)"
  by (simp add: orderObject_def optional_def statusString_def
      split: option.splits OrderStatus.splits)

lemma orderObject_representable: "representable (orderObject order)"
  by (simp add: orderObject_def optional_def statusString_def
      split: option.splits OrderStatus.splits)

lemma orderObject_fields:
  "readProperty (omitUndefined (orderObject order)) field = readProperty (orderObject order) field"
  by (simp add: orderObject_def optional_def statusString_def
      split: option.splits OrderStatus.splits)

text \<open>
  C8, as the code has it. A value is exported with \<^verbatim>\<open>exportAsJSON\<close> and the file is
  imported with \<^verbatim>\<open>importFromJSON\<close>. First part: a value whose every Number is finite
  and that holds no \<^verbatim>\<open>undefined\<close> comes back identical. Second part: a value whose
  every Number is finite and in which \<^verbatim>\<open>undefined\<close> stands only as the value of
  properties comes back without those properties and otherwise identical. Third and
  fourth part, for a collection of orders as the program builds them: the collection
  comes back with the orders in their order, each without the optional fields it does not
  have, and every field of every order reads as before (a field left out reads
  \<^verbatim>\<open>undefined\<close>, as it did).
\<close>

theorem export_then_import:
  "(distinctKeys v \<and> jsonSafe v \<longrightarrow> importFromJSON (exportAsJSON v filename) = Inr v)
   \<and> (distinctKeys v \<and> representable v \<longrightarrow>
        importFromJSON (exportAsJSON v filename) = Inr (omitUndefined v))
   \<and> importFromJSON (exportAsJSON (JArray (map orderObject os)) filename)
       = Inr (JArray (map (\<lambda>order. omitUndefined (orderObject order)) os))
   \<and> readProperty (omitUndefined (orderObject order)) field
       = readProperty (orderObject order) field"
proof (intro conjI impI)
  assume "distinctKeys v \<and> jsonSafe v"
  then show "importFromJSON (exportAsJSON v filename) = Inr v"
    using export_import_representable [of v filename] jsonSafe_representable [of v] by simp
next
  assume "distinctKeys v \<and> representable v"
  then show "importFromJSON (exportAsJSON v filename) = Inr (omitUndefined v)"
    by (simp add: export_import_representable)
next
  have "distinctKeys (JArray (map orderObject os))"
    by (simp add: list_all_iff orderObject_distinctKeys)
  moreover have "representable (JArray (map orderObject os))"
    by (simp add: list_all_iff orderObject_representable)
  ultimately show "importFromJSON (exportAsJSON (JArray (map orderObject os)) filename)
       = Inr (JArray (map (\<lambda>order. omitUndefined (orderObject order)) os))"
    using export_import_representable [of "JArray (map orderObject os)" filename]
    by (simp add: comp_def)
next
  show "readProperty (omitUndefined (orderObject order)) field
       = readProperty (orderObject order) field"
    by (rule orderObject_fields)
qed

text \<open>
  ORD-1 as it is stored (no \<^verbatim>\<open>driverId\<close>, no \<^verbatim>\<open>employeeId\<close>) comes back identical.
\<close>

theorem export_then_import_witness:
  "importFromJSON (exportAsJSON (JArray [omitUndefined (orderObject ORD_1)])
       ''orders_2024-06-03.json'')
     = Inr (JArray [omitUndefined (orderObject ORD_1)])
   \<and> distinctKeys (JArray [omitUndefined (orderObject ORD_1)])
   \<and> jsonSafe (JArray [omitUndefined (orderObject ORD_1)])
   \<and> readProperty (omitUndefined (orderObject ORD_1)) ''price'' = JNumber (Finite 1500)
   \<and> readProperty (omitUndefined (orderObject ORD_1)) ''driverId'' = JUndefined"
proof -
  have 1: "distinctKeys (JArray [omitUndefined (orderObject ORD_1)])"
    by (simp add: orderObject_def optional_def statusString_def ORD_1_def)
  have 2: "jsonSafe (JArray [omitUndefined (orderObject ORD_1)])"
    by (simp add: orderObject_def optional_def statusString_def ORD_1_def)
  have 3: "readProperty (omitUndefined (orderObject ORD_1)) ''price'' = JNumber (Finite 1500)"
    by (simp add: orderObject_def optional_def statusString_def ORD_1_def)
  have 4: "readProperty (omitUndefined (orderObject ORD_1)) ''driverId'' = JUndefined"
    by (simp add: orderObject_def optional_def statusString_def ORD_1_def)
  from export_then_import [of "JArray [omitUndefined (orderObject ORD_1)]"
      "''orders_2024-06-03.json''"]
  show ?thesis using 1 2 3 4 by simp
qed

text \<open>
  The claim as the spec has it fails. The import of a file with
  the price \<^verbatim>\<open>1e400\<close> gives a collection whose order has the price \<^verbatim>\<open>Infinity\<close>; exported
  and imported again, the price is \<^verbatim>\<open>null\<close>. And ORD-1 as \<^verbatim>\<open>handleSubmit\<close> builds it,
  with the property \<^verbatim>\<open>driverId\<close> of value \<^verbatim>\<open>undefined\<close>, comes back without that property.
\<close>

theorem export_import_changes_collection:
  "importFromJSON hugePriceFile = Inr (JArray [infinitePriceOrder])
   \<and> importFromJSON (exportAsJSON (JArray [infinitePriceOrder]) ''orders_2024-06-03.json'')
       \<noteq> Inr (JArray [infinitePriceOrder])
   \<and> importFromJSON (exportAsJSON (JArray [orderObject ORD_1]) ''orders_2024-06-03.json'')
       \<noteq> Inr (JArray [orderObject ORD_1])"
  by (simp add: importFromJSON_def exportAsJSON_def stringify_def parse_def hugePriceFile_def
      infinitePriceOrder_def defineAll_def orderObject_def optional_def statusString_def
      ORD_1_def)


end
